theory Spec2Isabelle
  imports Main "HOL-Library.AList"
begin

section \<open>Data model of \<open>pkg/rtc/mediatracksubscriptions.go\<close>\<close>

subsection \<open>Identifiers and enumerations\<close>

type_synonym ParticipantID = string
type_synonym NodeID = string

text \<open>
  Modelled from the spec: \<open>livekit.TrackType\<close> is declared in the protocol package, which
  is not among the sources; the spec gives Kind as audio or video.
\<close>

datatype TrackType = TrackType_AUDIO | TrackType_VIDEO

text \<open>
  \<open>livekit.VideoQuality\<close> is a protobuf enumeration, in Go a named \<open>int32\<close> whose values
  are compared with \<open><\<close>, \<open><=\<close> and stepped with \<open>q++\<close>. The values stay between 0 and 3
  in every computation below, so unbounded integers stand for the \<open>int32\<close>.
\<close>

type_synonym VideoQuality = int

text \<open>
  The constants are those of the generated protocol package the code compiles against,
  which is not among the sources: LOW = 0, MEDIUM = 1, HIGH = 2 and OFF = 3. OFF, added
  last, is the greatest number and LOW is the zero value of the type, which is why
  \<open>updateQualityChange\<close> tests for OFF before it compares two qualities.
\<close>

definition VideoQuality_LOW :: VideoQuality where "VideoQuality_LOW = 0"
definition VideoQuality_MEDIUM :: VideoQuality where "VideoQuality_MEDIUM = 1"
definition VideoQuality_HIGH :: VideoQuality where "VideoQuality_HIGH = 2"
definition VideoQuality_OFF :: VideoQuality where "VideoQuality_OFF = 3"

definition is_VideoQuality :: "VideoQuality \<Rightarrow> bool" where
  "is_VideoQuality q \<longleftrightarrow>
     q = VideoQuality_OFF \<or> q = VideoQuality_LOW \<or> q = VideoQuality_MEDIUM \<or> q = VideoQuality_HIGH"

text \<open>
  Modelled from the spec: the qualities are totally ordered, OFF < LOW < MEDIUM < HIGH.
  This is not the order of the numbers; \<open>quality_rank\<close> gives the place of a quality in
  the order of the spec and \<open>quality_of_rank\<close> the quality at a place.
\<close>

definition quality_rank :: "VideoQuality \<Rightarrow> nat" where
  "quality_rank q =
     (if q = VideoQuality_LOW then 1
      else if q = VideoQuality_MEDIUM then 2
      else if q = VideoQuality_HIGH then 3
      else 0)"

definition quality_of_rank :: "nat \<Rightarrow> VideoQuality" where
  "quality_of_rank r =
     (if r = 1 then VideoQuality_LOW
      else if r = 2 then VideoQuality_MEDIUM
      else if r = 3 then VideoQuality_HIGH
      else VideoQuality_OFF)"

text \<open>\<open>livekit.SubscribedQuality\<close>: one entry of the descriptor handed to the publisher.\<close>

record SubscribedQuality =
  Quality :: VideoQuality
  Enabled :: bool

subsection \<open>Go maps\<close>

text \<open>
  A Go map value is either \<open>nil\<close> or a table made by \<open>make\<close>. Reading, ranging over and
  deleting from a nil map behave as on an empty map; assigning to an entry of a nil map
  panics. The table is kept as an association list with distinct keys; the order of the
  list stands for the (unspecified) order in which \<open>range\<close> visits the entries.
\<close>

datatype ('k, 'v) gomap = NilMap | GoMap "('k \<times> 'v) list"

datatype panic = AssignmentToEntryInNilMap

fun entries :: "('k, 'v) gomap \<Rightarrow> ('k \<times> 'v) list" where
  "entries NilMap = []"
| "entries (GoMap kvs) = kvs"

text \<open>\<open>v, ok := m[k]\<close>\<close>

definition lookup :: "('k, 'v) gomap \<Rightarrow> 'k \<Rightarrow> 'v option" where
  "lookup m k = map_of (entries m) k"

text \<open>\<open>delete(m, k)\<close>\<close>

fun delete_key :: "'k \<Rightarrow> ('k, 'v) gomap \<Rightarrow> ('k, 'v) gomap" where
  "delete_key k NilMap = NilMap"
| "delete_key k (GoMap kvs) = GoMap (AList.delete k kvs)"

text \<open>\<open>m[k] = v\<close>\<close>

fun assign :: "'k \<Rightarrow> 'v \<Rightarrow> ('k, 'v) gomap \<Rightarrow> panic + ('k, 'v) gomap" where
  "assign k v NilMap = Inl AssignmentToEntryInNilMap"
| "assign k v (GoMap kvs) = Inr (GoMap (AList.update k v kvs))"

definition map_values :: "('k, 'v) gomap \<Rightarrow> 'v list" where
  "map_values m = map snd (entries m)"

definition wf_gomap :: "('k, 'v) gomap \<Rightarrow> bool" where
  "wf_gomap m \<longleftrightarrow> distinct (map fst (entries m))"

subsection \<open>The engine state\<close>

text \<open>
  What the engine reads from its parameters: the kind and mute state of the published
  track, and whether a telemetry service is set.
\<close>

record MediaTrackSubscriptionsParams =
  Kind :: TrackType
  IsMuted :: bool
  Telemetry :: bool

text \<open>
  A SubscribedTrack pairs the subscriber with its forwarder (DownTrack). The forwarder is
  an object of the sfu package; it is identified here by a handle.
\<close>

type_synonym DownTrack = nat

record SubscribedTrack =
  SubscriberID :: ParticipantID
  DownTrackOf :: DownTrack
  pubMuted :: bool

text \<open>
  The fields of \<open>MediaTrackSubscriptions\<close>. The registry \<open>subscribedTracks\<close> is a
  \<open>sync.Map\<close>, kept as an association list in iteration order. The upcall
  \<open>onSubscribedMaxQualityChange\<close> is a function value; only whether it is non-nil is
  kept. \<open>maxQualityTimer\<close> records whether a timer is pending.
\<close>

record MediaTrackSubscriptions =
  params :: MediaTrackSubscriptionsParams
  subscribedTracks :: "(ParticipantID \<times> SubscribedTrack) list"
  maxSubscriberQuality :: "(ParticipantID, VideoQuality) gomap"
  maxSubscriberNodeQuality :: "(NodeID, VideoQuality) gomap"
  maxSubscribedQuality :: VideoQuality
  onSubscribedMaxQualityChange :: bool
  maxQualityTimer :: bool

text \<open>
  \<open>NewMediaTrackSubscriptions\<close> makes \<open>maxSubscriberQuality\<close> and leaves every other field
  at its zero value: the per-node map is nil, the current max is the quality numbered 0
  (LOW), no upcall is registered and no timer is pending.
\<close>

definition NewMediaTrackSubscriptions :: "MediaTrackSubscriptionsParams \<Rightarrow> MediaTrackSubscriptions" where
  "NewMediaTrackSubscriptions p =
     \<lparr> params = p,
       subscribedTracks = [],
       maxSubscriberQuality = GoMap [],
       maxSubscriberNodeQuality = NilMap,
       maxSubscribedQuality = 0,
       onSubscribedMaxQualityChange = False,
       maxQualityTimer = False \<rparr>"

text \<open>\<open>OnSubscribedMaxQualityChange(f)\<close> with a non-nil \<open>f\<close>.\<close>

definition OnSubscribedMaxQualityChange :: "MediaTrackSubscriptions \<Rightarrow> MediaTrackSubscriptions" where
  "OnSubscribedMaxQualityChange t = t\<lparr>onSubscribedMaxQualityChange := True\<rparr>"

subsection \<open>The collaborators\<close>

text \<open>
  Errors returned by the transport. \<open>webrtc.ErrConnectionClosed\<close> and
  \<open>*rtcerr.InvalidStateError\<close> are the two the engine tells apart; every other error,
  and the ones made with \<open>errors.New\<close>, carry their message.
\<close>

datatype error = ErrConnectionClosed | InvalidStateError | ErrorString string

type_synonym RTPSender = nat
type_synonym SourceDescriptionChunk = nat

record RTPTransceiver =
  TransceiverID :: nat
  Sender :: "RTPSender option"

text \<open>
  The subscriber (\<open>types.Participant\<close>) and its peer connection are external objects. The
  record gives what their methods answer during one call of the engine:
  \<open>AddTrack\<close>, \<open>AddTransceiverFromTrack\<close> and \<open>RemoveTrack\<close> their results,
  \<open>GetTransceivers\<close> the transceivers after \<open>AddTrack\<close>, \<open>ConnectionStateClosed\<close>
  whether \<open>ConnectionState()\<close> is \<open>PeerConnectionStateClosed\<close>, and \<open>WriteRTCP n\<close> the
  result of the call number \<open>n\<close> (from 0) of \<open>WriteRTCP\<close>.
\<close>

record Participant =
  ID :: ParticipantID
  SupportsTransceiverReuse :: bool
  AddTrack :: "error + RTPSender"
  GetTransceivers :: "RTPTransceiver list"
  AddTransceiverFromTrack :: "error + RTPTransceiver"
  ConnectionStateClosed :: bool
  RemoveTrack :: "error option"
  WriteRTCP :: "nat \<Rightarrow> error option"

text \<open>
  Calls that leave the engine are recorded in a trace, in program order. A statement
  \<open>go f()\<close> is recorded as the call it starts; \<open>GoSubscribe\<close> is the goroutine started at
  the end of \<open>AddSubscriber\<close>. \<open>Sleep\<close> carries milliseconds.
\<close>

datatype event =
    Upcall "SubscribedQuality list" VideoQuality
  | DownTrackClose DownTrack
  | PCAddTrack DownTrack
  | PCAddTransceiverFromTrack DownTrack
  | PCRemoveTrack RTPSender
  | PCWriteRTCP "SourceDescriptionChunk list"
  | Sleep nat
  | LogDebug string
  | LogError string
  | TelemetryTrackSubscribed ParticipantID
  | TelemetryTrackUnsubscribed ParticipantID
  | AddSubscribedTrack ParticipantID
  | RemoveSubscribedTrack ParticipantID
  | Negotiate ParticipantID
  | GoSubscribe ParticipantID

section \<open>Quality aggregator\<close>

text \<open>
  The two \<open>range\<close> loops of \<open>updateQualityChange\<close>: the running maximum is replaced when it
  is still OFF or when the entry is greater.
\<close>

fun max_loop :: "VideoQuality \<Rightarrow> ('k \<times> VideoQuality) list \<Rightarrow> VideoQuality" where
  "max_loop maxQ [] = maxQ"
| "max_loop maxQ ((k, subQuality) # rest) =
     max_loop (if maxQ = VideoQuality_OFF \<or> subQuality > maxQ then subQuality else maxQ) rest"

text \<open>\<open>for q := livekit.VideoQuality_LOW; q <= livekit.VideoQuality_HIGH; q++\<close>\<close>

function layers_loop :: "VideoQuality \<Rightarrow> VideoQuality \<Rightarrow> SubscribedQuality list" where
  "layers_loop q maxQ =
     (if q \<le> VideoQuality_HIGH
      then \<lparr>Quality = q, Enabled = q \<le> maxQ\<rparr> # layers_loop (q + 1) maxQ
      else [])"
  by pat_completeness auto
termination
  by (relation "measure (\<lambda>(q, maxQ). nat (VideoQuality_HIGH + 1 - q))") auto

declare layers_loop.simps [simp del]

text \<open>The block of \<open>updateQualityChange\<close> that builds \<open>subscribedQualities\<close>.\<close>

definition subscribedQualities :: "VideoQuality \<Rightarrow> SubscribedQuality list" where
  "subscribedQualities maxQ =
     (if maxQ = VideoQuality_OFF
      then [\<lparr>Quality = VideoQuality_LOW, Enabled = False\<rparr>,
            \<lparr>Quality = VideoQuality_MEDIUM, Enabled = False\<rparr>,
            \<lparr>Quality = VideoQuality_HIGH, Enabled = False\<rparr>]
      else layers_loop VideoQuality_LOW maxQ)"

definition updateQualityChange :: "MediaTrackSubscriptions \<Rightarrow> MediaTrackSubscriptions \<times> event list" where
  "updateQualityChange t =
     (if Kind (params t) \<noteq> TrackType_VIDEO then (t, [])
      else
        let maxQ = max_loop (max_loop VideoQuality_OFF (entries (maxSubscriberQuality t)))
                            (entries (maxSubscriberNodeQuality t))
        in if maxQ = maxSubscribedQuality t then (t, [])
           else
             let t' = t\<lparr>maxSubscribedQuality := maxQ\<rparr>;
                 qualities = subscribedQualities (maxSubscribedQuality t')
             in (t', if onSubscribedMaxQualityChange t' then [Upcall qualities maxQ] else []))"

text \<open>
  \<open>NotifySubscriberMaxQuality\<close> and \<open>NotifySubscriberNodeMaxQuality\<close>. A panic leaves the
  function before \<open>updateQualityChange\<close> is reached.
\<close>

definition NotifySubscriberMaxQuality ::
  "ParticipantID \<Rightarrow> VideoQuality \<Rightarrow> MediaTrackSubscriptions \<Rightarrow> panic + MediaTrackSubscriptions \<times> event list" where
  "NotifySubscriberMaxQuality subscriberID quality t =
     (if Kind (params t) \<noteq> TrackType_VIDEO then Inr (t, [])
      else if quality = VideoQuality_OFF then
        (case lookup (maxSubscriberQuality t) subscriberID of
           None \<Rightarrow> Inr (t, [])
         | Some _ \<Rightarrow>
             Inr (updateQualityChange
                    (t\<lparr>maxSubscriberQuality := delete_key subscriberID (maxSubscriberQuality t)\<rparr>)))
      else
        (case lookup (maxSubscriberQuality t) subscriberID of
           Some maxQuality \<Rightarrow>
             if maxQuality = quality then Inr (t, [])
             else (case assign subscriberID quality (maxSubscriberQuality t) of
                     Inl p \<Rightarrow> Inl p
                   | Inr m \<Rightarrow> Inr (updateQualityChange (t\<lparr>maxSubscriberQuality := m\<rparr>)))
         | None \<Rightarrow>
             (case assign subscriberID quality (maxSubscriberQuality t) of
                Inl p \<Rightarrow> Inl p
              | Inr m \<Rightarrow> Inr (updateQualityChange (t\<lparr>maxSubscriberQuality := m\<rparr>)))))"

definition NotifySubscriberNodeMaxQuality ::
  "NodeID \<Rightarrow> VideoQuality \<Rightarrow> MediaTrackSubscriptions \<Rightarrow> panic + MediaTrackSubscriptions \<times> event list" where
  "NotifySubscriberNodeMaxQuality nodeID quality t =
     (if Kind (params t) \<noteq> TrackType_VIDEO then Inr (t, [])
      else if quality = VideoQuality_OFF then
        (case lookup (maxSubscriberNodeQuality t) nodeID of
           None \<Rightarrow> Inr (t, [])
         | Some _ \<Rightarrow>
             Inr (updateQualityChange
                    (t\<lparr>maxSubscriberNodeQuality := delete_key nodeID (maxSubscriberNodeQuality t)\<rparr>)))
      else
        (case lookup (maxSubscriberNodeQuality t) nodeID of
           Some maxQuality \<Rightarrow>
             if maxQuality = quality then Inr (t, [])
             else (case assign nodeID quality (maxSubscriberNodeQuality t) of
                     Inl p \<Rightarrow> Inl p
                   | Inr m \<Rightarrow> Inr (updateQualityChange (t\<lparr>maxSubscriberNodeQuality := m\<rparr>)))
         | None \<Rightarrow>
             (case assign nodeID quality (maxSubscriberNodeQuality t) of
                Inl p \<Rightarrow> Inl p
              | Inr m \<Rightarrow> Inr (updateQualityChange (t\<lparr>maxSubscriberNodeQuality := m\<rparr>)))))"

text \<open>The timer of the first quality update, and the function it runs when it fires.\<close>

definition startMaxQualityTimer :: "MediaTrackSubscriptions \<Rightarrow> MediaTrackSubscriptions" where
  "startMaxQualityTimer t =
     (if Kind (params t) \<noteq> TrackType_VIDEO then t else t\<lparr>maxQualityTimer := True\<rparr>)"

definition stopMaxQualityTimer :: "MediaTrackSubscriptions \<Rightarrow> MediaTrackSubscriptions" where
  "stopMaxQualityTimer t = (if maxQualityTimer t then t\<lparr>maxQualityTimer := False\<rparr> else t)"

definition maxQualityTimer_fires :: "MediaTrackSubscriptions \<Rightarrow> MediaTrackSubscriptions \<times> event list" where
  "maxQualityTimer_fires t = updateQualityChange (stopMaxQualityTimer t)"

text \<open>Runs of the aggregator: the operations of the spec, applied one after the other.\<close>

datatype aggregator_op =
    NotifySubscriber ParticipantID VideoQuality
  | NotifyNode NodeID VideoQuality
  | Recompute
  | StartInitialTimer

fun apply_op :: "aggregator_op \<Rightarrow> MediaTrackSubscriptions \<Rightarrow> panic + MediaTrackSubscriptions \<times> event list" where
  "apply_op (NotifySubscriber subscriberID q) t = NotifySubscriberMaxQuality subscriberID q t"
| "apply_op (NotifyNode nodeID q) t = NotifySubscriberNodeMaxQuality nodeID q t"
| "apply_op Recompute t = Inr (updateQualityChange t)"
| "apply_op StartInitialTimer t = Inr (startMaxQualityTimer t, [])"

fun run_ops :: "aggregator_op list \<Rightarrow> MediaTrackSubscriptions \<Rightarrow> panic + MediaTrackSubscriptions \<times> event list" where
  "run_ops [] t = Inr (t, [])"
| "run_ops (op # ops) t =
     (case apply_op op t of
        Inl p \<Rightarrow> Inl p
      | Inr (t', evs) \<Rightarrow>
          (case run_ops ops t' of
             Inl p \<Rightarrow> Inl p
           | Inr (t'', evs') \<Rightarrow> Inr (t'', evs @ evs')))"

text \<open>
  The words of the spec for the current max: the maximum, in the order of the qualities,
  of all values of both maps, OFF when there is none. It is the quality whose rank is the
  greatest rank among OFF and the values.
\<close>

definition pointwise_max :: "MediaTrackSubscriptions \<Rightarrow> VideoQuality" where
  "pointwise_max t =
     quality_of_rank
       (Max (set (map quality_rank
                    (VideoQuality_OFF #
                     map_values (maxSubscriberQuality t) @ map_values (maxSubscriberNodeQuality t)))))"

definition valid_qualities :: "MediaTrackSubscriptions \<Rightarrow> bool" where
  "valid_qualities t \<longleftrightarrow>
     list_all is_VideoQuality (map_values (maxSubscriberQuality t)) \<and>
     list_all is_VideoQuality (map_values (maxSubscriberNodeQuality t))"

text \<open>OFF retracts a contribution and is not kept as the value of an entry.\<close>

definition no_OFF_stored :: "MediaTrackSubscriptions \<Rightarrow> bool" where
  "no_OFF_stored t \<longleftrightarrow>
     VideoQuality_OFF \<notin> set (map_values (maxSubscriberQuality t)) \<and>
     VideoQuality_OFF \<notin> set (map_values (maxSubscriberNodeQuality t))"

section \<open>Subscription registry\<close>

definition IsSubscriber :: "ParticipantID \<Rightarrow> MediaTrackSubscriptions \<Rightarrow> bool" where
  "IsSubscriber subID t \<longleftrightarrow> map_of (subscribedTracks t) subID \<noteq> None"

definition getSubscribedTrack :: "ParticipantID \<Rightarrow> MediaTrackSubscriptions \<Rightarrow> SubscribedTrack option" where
  "getSubscribedTrack subscriberID t = map_of (subscribedTracks t) subscriberID"

text \<open>
  \<open>RevokeDisallowedSubscribers\<close>. The inner loop looks \<open>subID\<close> up in the allowed ids; the
  \<open>Range\<close> callback closes the forwarder of every entry not found and appends its id. The
  registry only ever holds participant ids and subscribed tracks, so the two type
  assertions of the callback succeed.
\<close>

fun found :: "ParticipantID \<Rightarrow> ParticipantID list \<Rightarrow> bool" where
  "found subID [] = False"
| "found subID (allowedID # rest) = (if subID = allowedID then True else found subID rest)"

fun revoke_range ::
  "(ParticipantID \<times> SubscribedTrack) list \<Rightarrow> ParticipantID list \<Rightarrow>
   ParticipantID list \<times> event list \<Rightarrow> ParticipantID list \<times> event list" where
  "revoke_range [] allowedSubscriberIDs acc = acc"
| "revoke_range ((subID, subTrack) # rest) allowedSubscriberIDs (revokedSubscriberIDs, evs) =
     (if \<not> found subID allowedSubscriberIDs
      then revoke_range rest allowedSubscriberIDs
             (revokedSubscriberIDs @ [subID], evs @ [DownTrackClose (DownTrackOf subTrack)])
      else revoke_range rest allowedSubscriberIDs (revokedSubscriberIDs, evs))"

definition RevokeDisallowedSubscribers ::
  "ParticipantID list \<Rightarrow> MediaTrackSubscriptions \<Rightarrow> ParticipantID list \<times> event list" where
  "RevokeDisallowedSubscribers allowedSubscriberIDs t =
     revoke_range (subscribedTracks t) allowedSubscriberIDs ([], [])"

text \<open>
  \<open>AddSubscriber\<close>. \<open>newDownTrack\<close> is the result of \<open>sfu.NewDownTrack\<close>; the codec and
  feedback arguments only feed that constructor. The result is Go's pair: \<open>Inl err\<close> for
  \<open>(nil, err)\<close>, \<open>Inr None\<close> for \<open>(nil, nil)\<close> and \<open>Inr (Some downTrack)\<close> for
  \<open>(downTrack, nil)\<close>. The hooks set on the forwarder live in the forwarder; the on-close
  hook is \<open>OnCloseHandler\<close> below.
\<close>

fun find_transceiver :: "RTPSender \<Rightarrow> RTPTransceiver list \<Rightarrow> RTPTransceiver option" where
  "find_transceiver sender [] = None"
| "find_transceiver sender (tr # rest) =
     (if Sender tr = Some sender then Some tr else find_transceiver sender rest)"

definition AddSubscriber ::
  "Participant \<Rightarrow> error + DownTrack \<Rightarrow> MediaTrackSubscriptions \<Rightarrow>
   MediaTrackSubscriptions \<times> event list \<times> (error + DownTrack option)" where
  "AddSubscriber sub newDownTrack t =
     (let subscriberID = ID sub;
          store = (\<lambda>downTrack evs.
            let subTrack = \<lparr>SubscriberID = subscriberID, DownTrackOf = downTrack,
                             pubMuted = IsMuted (params t)\<rparr>;
                t' = t\<lparr>subscribedTracks := AList.update subscriberID subTrack (subscribedTracks t)\<rparr>
            in (t',
                evs @ [GoSubscribe subscriberID] @
                  (if Telemetry (params t) then [TelemetryTrackSubscribed subscriberID] else []),
                Inr (Some downTrack)))
      in if map_of (subscribedTracks t) subscriberID \<noteq> None then (t, [], Inr None)
         else (case newDownTrack of
           Inl err \<Rightarrow> (t, [], Inl err)
         | Inr downTrack \<Rightarrow>
             if SupportsTransceiverReuse sub then
               (case AddTrack sub of
                  Inl err \<Rightarrow> (t, [PCAddTrack downTrack], Inl err)
                | Inr sender \<Rightarrow>
                    (case find_transceiver sender (GetTransceivers sub) of
                       None \<Rightarrow>
                         (t, [PCAddTrack downTrack],
                          Inl (ErrorString ''cannot subscribe without a transceiver in place''))
                     | Some transceiver \<Rightarrow> store downTrack [PCAddTrack downTrack]))
             else
               (case AddTransceiverFromTrack sub of
                  Inl err \<Rightarrow> (t, [PCAddTransceiverFromTrack downTrack], Inl err)
                | Inr transceiver \<Rightarrow>
                    (case Sender transceiver of
                       None \<Rightarrow>
                         (t, [PCAddTransceiverFromTrack downTrack],
                          Inl (ErrorString ''cannot subscribe without a sender in place''))
                     | Some sender \<Rightarrow> store downTrack [PCAddTransceiverFromTrack downTrack]))))"

text \<open>The goroutine started at the end of \<open>AddSubscriber\<close>.\<close>

definition AddSubscriber_go ::
  "ParticipantID \<Rightarrow> MediaTrackSubscriptions \<Rightarrow> panic + MediaTrackSubscriptions \<times> event list" where
  "AddSubscriber_go subscriberID t =
     (case NotifySubscriberMaxQuality subscriberID VideoQuality_HIGH t of
        Inl p \<Rightarrow> Inl p
      | Inr (t', evs) \<Rightarrow> Inr (t', evs @ [AddSubscribedTrack subscriberID, Negotiate subscriberID]))"


section \<open>Binding report pump\<close>

text \<open>
  The loop of the goroutine of \<open>sendDownTrackBindingReports\<close>. Each round makes one call
  of \<open>WriteRTCP\<close>, so the round \<open>i\<close> makes the call number \<open>i\<close>.
\<close>

function report_loop :: "(nat \<Rightarrow> error option) \<Rightarrow> SourceDescriptionChunk list \<Rightarrow> nat \<Rightarrow> event list" where
  "report_loop writeRTCP batch i =
     (case writeRTCP i of
        Some err \<Rightarrow> [PCWriteRTCP batch, LogError ''could not write RTCP'']
      | None \<Rightarrow>
          if i > 5 then [PCWriteRTCP batch]
          else PCWriteRTCP batch # Sleep 20 # report_loop writeRTCP batch (i + 1))"
  by pat_completeness auto
termination
  by (relation "measure (\<lambda>(writeRTCP, batch, i). 6 - i)") auto

declare report_loop.simps [simp del]

text \<open>
  \<open>chunks\<close> is what \<open>CreateSourceDescriptionChunks\<close> of the forwarder returns, \<open>None\<close> for
  nil. The trace is the one of the goroutine the function starts.
\<close>

definition sendDownTrackBindingReports ::
  "Participant \<Rightarrow> (DownTrack \<Rightarrow> SourceDescriptionChunk list option) \<Rightarrow>
   MediaTrackSubscriptions \<Rightarrow> event list" where
  "sendDownTrackBindingReports sub CreateSourceDescriptionChunks t =
     (case getSubscribedTrack (ID sub) t of
        None \<Rightarrow> []
      | Some subTrack \<Rightarrow>
          (case CreateSourceDescriptionChunks (DownTrackOf subTrack) of
             None \<Rightarrow> []
           | Some chunks \<Rightarrow> report_loop (WriteRTCP sub) ([] @ chunks) 0))"

text \<open>
  The time of each write, counted from the start of the trace in the milliseconds slept.
\<close>

fun write_times :: "nat \<Rightarrow> event list \<Rightarrow> nat list" where
  "write_times now [] = []"
| "write_times now (PCWriteRTCP batch # evs) = now # write_times now evs"
| "write_times now (Sleep ms # evs) = write_times (now + ms) evs"
| "write_times now (ev # evs) = write_times now evs"

section \<open>Invariant of the aggregator\<close>

text \<open>
  What holds of every engine between two calls: the per-subscriber map has been made, the
  tables have distinct keys, and they hold qualities other than OFF.
\<close>

definition engine_inv :: "MediaTrackSubscriptions \<Rightarrow> bool" where
  "engine_inv t \<longleftrightarrow>
     maxSubscriberQuality t \<noteq> NilMap \<and>
     wf_gomap (maxSubscriberQuality t) \<and>
     wf_gomap (maxSubscriberNodeQuality t) \<and>
     valid_qualities t \<and>
     no_OFF_stored t"

fun op_valid :: "aggregator_op \<Rightarrow> bool" where
  "op_valid (NotifySubscriber subscriberID q) = is_VideoQuality q"
| "op_valid (NotifyNode nodeID q) = is_VideoQuality q"
| "op_valid Recompute = True"
| "op_valid StartInitialTimer = True"

section \<open>Example states\<close>

definition video_params :: MediaTrackSubscriptionsParams where
  "video_params = \<lparr>Kind = TrackType_VIDEO, IsMuted = False, Telemetry = True\<rparr>"

definition audio_params :: MediaTrackSubscriptionsParams where
  "audio_params = \<lparr>Kind = TrackType_AUDIO, IsMuted = False, Telemetry = True\<rparr>"

text \<open>
  A video track with a registered upcall where A wants LOW and B wants MEDIUM, before the
  first recomputation: the current max is still the one the constructor left.
\<close>

definition track_A_low_B_medium :: MediaTrackSubscriptions where
  "track_A_low_B_medium =
     (OnSubscribedMaxQualityChange (NewMediaTrackSubscriptions video_params))
       \<lparr>maxSubscriberQuality := GoMap [(''A'', VideoQuality_LOW), (''B'', VideoQuality_MEDIUM)]\<rparr>"

text \<open>An audio track with a registered upcall.\<close>

definition audio_track :: MediaTrackSubscriptions where
  "audio_track = OnSubscribedMaxQualityChange (NewMediaTrackSubscriptions audio_params)"

text \<open>A video track with three subscribers, and a subscriber whose calls all succeed.\<close>

definition track_with_ABC :: MediaTrackSubscriptions where
  "track_with_ABC =
     (OnSubscribedMaxQualityChange (NewMediaTrackSubscriptions video_params))
       \<lparr>subscribedTracks :=
          [(''A'', \<lparr>SubscriberID = ''A'', DownTrackOf = 1, pubMuted = False\<rparr>),
           (''B'', \<lparr>SubscriberID = ''B'', DownTrackOf = 2, pubMuted = False\<rparr>),
           (''C'', \<lparr>SubscriberID = ''C'', DownTrackOf = 3, pubMuted = False\<rparr>)],
        maxSubscriberQuality :=
          GoMap [(''A'', VideoQuality_LOW), (''B'', VideoQuality_HIGH), (''C'', VideoQuality_LOW)],
        maxSubscribedQuality := VideoQuality_HIGH\<rparr>"

definition participant :: "ParticipantID \<Rightarrow> Participant" where
  "participant subscriberID =
     \<lparr>ID = subscriberID,
      SupportsTransceiverReuse = True,
      AddTrack = Inr 10,
      GetTransceivers = [\<lparr>TransceiverID = 0, Sender = Some 10\<rparr>],
      AddTransceiverFromTrack = Inr \<lparr>TransceiverID = 0, Sender = Some 10\<rparr>,
      ConnectionStateClosed = False,
      RemoveTrack = None,
      WriteRTCP = (\<lambda>n. None)\<rparr>"

text \<open>The attachment of the forwarder to the peer connection fails, on either path.\<close>

definition attach_fails :: "Participant \<Rightarrow> bool" where
  "attach_fails sub \<longleftrightarrow>
     (if SupportsTransceiverReuse sub
      then (case AddTrack sub of
              Inl err \<Rightarrow> True
            | Inr sender \<Rightarrow> find_transceiver sender (GetTransceivers sub) = None)
      else (case AddTransceiverFromTrack sub of
              Inl err \<Rightarrow> True
            | Inr transceiver \<Rightarrow> Sender transceiver = None))"

text \<open>The track above once B has left the registry, its desired quality still stored.\<close>

definition track_with_AC :: MediaTrackSubscriptions where
  "track_with_AC =
     track_with_ABC\<lparr>subscribedTracks :=
       [(''A'', \<lparr>SubscriberID = ''A'', DownTrackOf = 1, pubMuted = False\<rparr>),
        (''C'', \<lparr>SubscriberID = ''C'', DownTrackOf = 3, pubMuted = False\<rparr>)]\<rparr>"

section \<open>Basic facts\<close>

lemmas VideoQuality_defs =
  VideoQuality_OFF_def VideoQuality_LOW_def VideoQuality_MEDIUM_def VideoQuality_HIGH_def

lemma quality_of_rank_rank: "is_VideoQuality q \<Longrightarrow> quality_of_rank (quality_rank q) = q"
  by (auto simp: is_VideoQuality_def quality_rank_def quality_of_rank_def VideoQuality_defs)

lemma quality_rank_inj:
  "is_VideoQuality q \<Longrightarrow> is_VideoQuality q' \<Longrightarrow> quality_rank q = quality_rank q' \<Longrightarrow> q = q'"
  by (auto simp: is_VideoQuality_def quality_rank_def VideoQuality_defs split: if_splits)

text \<open>With a distinct-key table, the values of the list are the values of the map.\<close>

lemma map_values_ran: "wf_gomap m \<Longrightarrow> set (map_values m) = ran (lookup m)"
  unfolding wf_gomap_def map_values_def
  by (simp add: ran_distinct lookup_def [abs_def])

section \<open>The recomputation\<close>

text \<open>
  One round of a \<open>range\<close> loop: the entry is a quality other than OFF. When the running
  maximum is still OFF the test for OFF takes the entry, which has the greater rank;
  otherwise both are among LOW, MEDIUM and HIGH, where the numbers are in the order of the
  ranks. Either way the round takes the one of greater rank.
\<close>

lemma max_loop_step:
  assumes "is_VideoQuality m" "is_VideoQuality v" "v \<noteq> VideoQuality_OFF"
  shows "is_VideoQuality (if m = VideoQuality_OFF \<or> v > m then v else m) \<and>
         quality_rank (if m = VideoQuality_OFF \<or> v > m then v else m) =
           max (quality_rank v) (quality_rank m)"
  using assms
  by (auto simp: is_VideoQuality_def quality_rank_def VideoQuality_defs)

lemma max_loop_rank:
  "is_VideoQuality m \<Longrightarrow> list_all is_VideoQuality (map snd kvs) \<Longrightarrow>
   VideoQuality_OFF \<notin> set (map snd kvs) \<Longrightarrow>
   is_VideoQuality (max_loop m kvs) \<and>
   quality_rank (max_loop m kvs) = fold max (map quality_rank (map snd kvs)) (quality_rank m)"
proof (induction kvs arbitrary: m)
  case Nil
  then show ?case by simp
next
  case (Cons kv kvs)
  obtain k v where kv: "kv = (k, v)" by (cases kv)
  let ?m' = "if m = VideoQuality_OFF \<or> v > m then v else m"
  from Cons.prems kv have v: "is_VideoQuality v" "v \<noteq> VideoQuality_OFF"
    and rest: "list_all is_VideoQuality (map snd kvs)" "VideoQuality_OFF \<notin> set (map snd kvs)"
    by auto
  note step = max_loop_step[OF Cons.prems(1) v]
  have "is_VideoQuality (max_loop ?m' kvs) \<and>
        quality_rank (max_loop ?m' kvs) = fold max (map quality_rank (map snd kvs)) (quality_rank ?m')"
    using step rest by (intro Cons.IH) simp_all
  then show ?case
    using step kv by simp
qed

lemma both_loops:
  assumes "list_all is_VideoQuality (map snd xs)" "list_all is_VideoQuality (map snd ys)"
    and "VideoQuality_OFF \<notin> set (map snd xs)" "VideoQuality_OFF \<notin> set (map snd ys)"
  shows "max_loop (max_loop VideoQuality_OFF xs) ys =
         quality_of_rank
           (Max (set (map quality_rank (VideoQuality_OFF # map snd xs @ map snd ys))))"
proof -
  have off: "is_VideoQuality VideoQuality_OFF" by (simp add: is_VideoQuality_def)
  note a = max_loop_rank[OF off assms(1,3)]
  note b = max_loop_rank[OF a[THEN conjunct1] assms(2,4)]
  have "quality_rank (max_loop (max_loop VideoQuality_OFF xs) ys) =
        fold max (map quality_rank (map snd xs @ map snd ys)) (quality_rank VideoQuality_OFF)"
    using a b by simp
  also have "\<dots> = Max (set (map quality_rank (VideoQuality_OFF # map snd xs @ map snd ys)))"
    by (simp only: Max.set_eq_fold list.map)
  finally have r: "quality_rank (max_loop (max_loop VideoQuality_OFF xs) ys) =
     Max (set (map quality_rank (VideoQuality_OFF # map snd xs @ map snd ys)))" .
  from b[THEN conjunct1]
  have "max_loop (max_loop VideoQuality_OFF xs) ys =
        quality_of_rank (quality_rank (max_loop (max_loop VideoQuality_OFF xs) ys))"
    by (simp only: quality_of_rank_rank)
  then show ?thesis
    by (simp only: r)
qed

text \<open>The maximum of the spec is OFF or a stored value, and no stored value has a greater rank.\<close>

lemma pointwise_max_greatest:
  assumes "valid_qualities t"
  shows "pointwise_max t \<in> set (VideoQuality_OFF #
           map_values (maxSubscriberQuality t) @ map_values (maxSubscriberNodeQuality t)) \<and>
         (\<forall>q \<in> set (map_values (maxSubscriberQuality t) @ map_values (maxSubscriberNodeQuality t)).
            quality_rank q \<le> quality_rank (pointwise_max t))"
proof -
  let ?vs = "VideoQuality_OFF #
             map_values (maxSubscriberQuality t) @ map_values (maxSubscriberNodeQuality t)"
  have valid: "\<forall>q \<in> set ?vs. is_VideoQuality q"
    using assms by (auto simp: valid_qualities_def list_all_iff is_VideoQuality_def)
  have "Max (set (map quality_rank ?vs)) \<in> set (map quality_rank ?vs)"
    by (rule Max_in) simp_all
  then obtain q where q: "q \<in> set ?vs" "Max (set (map quality_rank ?vs)) = quality_rank q"
    by auto
  then have pm: "pointwise_max t = q"
    using valid by (simp add: pointwise_max_def quality_of_rank_rank del: set_simps list.map)
  have "\<forall>q' \<in> set ?vs. quality_rank q' \<le> quality_rank q"
    using q(2)[symmetric] by (auto simp del: set_simps list.map intro: Max_ge)
  then show ?thesis
    using q(1) pm by auto
qed

text \<open>The loop over the layers runs three rounds, for LOW, MEDIUM and HIGH.\<close>

lemma layers_loop_LOW:
  "layers_loop VideoQuality_LOW maxQ =
     [\<lparr>Quality = VideoQuality_LOW, Enabled = VideoQuality_LOW \<le> maxQ\<rparr>,
      \<lparr>Quality = VideoQuality_MEDIUM, Enabled = VideoQuality_MEDIUM \<le> maxQ\<rparr>,
      \<lparr>Quality = VideoQuality_HIGH, Enabled = VideoQuality_HIGH \<le> maxQ\<rparr>]"
  by (simp add: layers_loop.simps[of 0] layers_loop.simps[of 1] layers_loop.simps[of 2]
      layers_loop.simps[of 3] VideoQuality_defs)

lemma subscribedQualities_MEDIUM:
  "subscribedQualities VideoQuality_MEDIUM =
     [\<lparr>Quality = VideoQuality_LOW, Enabled = True\<rparr>,
      \<lparr>Quality = VideoQuality_MEDIUM, Enabled = True\<rparr>,
      \<lparr>Quality = VideoQuality_HIGH, Enabled = False\<rparr>]"
  by (simp add: subscribedQualities_def layers_loop_LOW) (simp add: VideoQuality_defs)

lemma updateQualityChange_fields:
  "maxSubscriberQuality (fst (updateQualityChange t)) = maxSubscriberQuality t"
  "maxSubscriberNodeQuality (fst (updateQualityChange t)) = maxSubscriberNodeQuality t"
  "subscribedTracks (fst (updateQualityChange t)) = subscribedTracks t"
  "params (fst (updateQualityChange t)) = params t"
  "onSubscribedMaxQualityChange (fst (updateQualityChange t)) = onSubscribedMaxQualityChange t"
  "maxQualityTimer (fst (updateQualityChange t)) = maxQualityTimer t"
  by (simp_all add: updateQualityChange_def Let_def)

lemma updateQualityChange_video:
  assumes "Kind (params t) = TrackType_VIDEO" "valid_qualities t" "no_OFF_stored t"
  shows "updateQualityChange t =
    (t\<lparr>maxSubscribedQuality := pointwise_max t\<rparr>,
     if pointwise_max t \<noteq> maxSubscribedQuality t \<and> onSubscribedMaxQualityChange t
     then [Upcall (subscribedQualities (pointwise_max t)) (pointwise_max t)] else [])"
proof -
  have "max_loop (max_loop VideoQuality_OFF (entries (maxSubscriberQuality t)))
                 (entries (maxSubscriberNodeQuality t)) = pointwise_max t"
    unfolding pointwise_max_def map_values_def
    using assms(2,3)
    by (intro both_loops) (simp_all add: valid_qualities_def no_OFF_stored_def map_values_def)
  then show ?thesis
    using assms(1) by (simp add: updateQualityChange_def Let_def)
qed

text \<open>
  C1. On a video track whose publisher has registered the upcall and whose maps hold
  qualities other than OFF (OFF is never stored), after \<open>updateQualityChange\<close> the
  current max is the maximum, in the order OFF < LOW < MEDIUM < HIGH of the qualities, of
  all values of the two desired-quality maps, which the call leaves as they are: it is OFF
  or one of the values, no value has a greater rank, and it is OFF when both maps are
  empty. The upcall is made exactly when this maximum differs from the current max stored
  before, once, with the descriptor of the new maximum and the new maximum.
\<close>

theorem updateQualityChange_publishes_pointwise_max:
  assumes "Kind (params t) = TrackType_VIDEO"
    and "valid_qualities t"
    and "no_OFF_stored t"
    and "onSubscribedMaxQualityChange t"
    and "updateQualityChange t = (t', evs)"
  shows "maxSubscribedQuality t' = pointwise_max t' \<and>
         maxSubscriberQuality t' = maxSubscriberQuality t \<and>
         maxSubscriberNodeQuality t' = maxSubscriberNodeQuality t \<and>
         maxSubscribedQuality t' \<in> set (VideoQuality_OFF #
           map_values (maxSubscriberQuality t') @ map_values (maxSubscriberNodeQuality t')) \<and>
         (\<forall>q \<in> set (map_values (maxSubscriberQuality t') @ map_values (maxSubscriberNodeQuality t')).
            quality_rank q \<le> quality_rank (maxSubscribedQuality t')) \<and>
         (map_values (maxSubscriberQuality t') = [] \<and> map_values (maxSubscriberNodeQuality t') = []
            \<longrightarrow> maxSubscribedQuality t' = VideoQuality_OFF) \<and>
         evs = (if maxSubscribedQuality t' \<noteq> maxSubscribedQuality t
                then [Upcall (subscribedQualities (maxSubscribedQuality t')) (maxSubscribedQuality t')]
                else [])"
proof -
  have t': "t' = t\<lparr>maxSubscribedQuality := pointwise_max t\<rparr>"
    and evs: "evs = (if pointwise_max t \<noteq> maxSubscribedQuality t
                     then [Upcall (subscribedQualities (pointwise_max t)) (pointwise_max t)]
                     else [])"
    using assms(4,5) unfolding updateQualityChange_video[OF assms(1,2,3)] by auto
  have same: "pointwise_max t' = pointwise_max t"
    by (simp add: t' pointwise_max_def)
  have empty: "map_values (maxSubscriberQuality t) = [] \<and> map_values (maxSubscriberNodeQuality t) = []
               \<longrightarrow> pointwise_max t = VideoQuality_OFF"
    by (simp add: pointwise_max_def quality_rank_def quality_of_rank_def VideoQuality_defs)
  have fields: "maxSubscribedQuality t' = pointwise_max t"
    "maxSubscriberQuality t' = maxSubscriberQuality t"
    "maxSubscriberNodeQuality t' = maxSubscriberNodeQuality t"
    by (simp_all add: t')
  note g = pointwise_max_greatest[OF assms(2)]
  show ?thesis
    unfolding fields same
    using g empty evs by blast
qed

theorem updateQualityChange_publishes_pointwise_max_witness:
  "Kind (params track_A_low_B_medium) = TrackType_VIDEO \<and>
   valid_qualities track_A_low_B_medium \<and>
   no_OFF_stored track_A_low_B_medium \<and>
   onSubscribedMaxQualityChange track_A_low_B_medium \<and>
   maxSubscribedQuality track_A_low_B_medium = VideoQuality_LOW \<and>
   maxSubscribedQuality (fst (updateQualityChange track_A_low_B_medium)) = VideoQuality_MEDIUM \<and>
   pointwise_max (fst (updateQualityChange track_A_low_B_medium)) = VideoQuality_MEDIUM \<and>
   snd (updateQualityChange track_A_low_B_medium) =
     [Upcall [\<lparr>Quality = VideoQuality_LOW, Enabled = True\<rparr>,
              \<lparr>Quality = VideoQuality_MEDIUM, Enabled = True\<rparr>,
              \<lparr>Quality = VideoQuality_HIGH, Enabled = False\<rparr>] VideoQuality_MEDIUM]"
proof -
  have k: "Kind (params track_A_low_B_medium) = TrackType_VIDEO"
    by (simp add: track_A_low_B_medium_def video_params_def NewMediaTrackSubscriptions_def
        OnSubscribedMaxQualityChange_def)
  have v: "valid_qualities track_A_low_B_medium"
    by (simp add: track_A_low_B_medium_def valid_qualities_def map_values_def is_VideoQuality_def
        NewMediaTrackSubscriptions_def OnSubscribedMaxQualityChange_def)
  have n: "no_OFF_stored track_A_low_B_medium"
    by (simp add: track_A_low_B_medium_def no_OFF_stored_def map_values_def VideoQuality_defs
        NewMediaTrackSubscriptions_def OnSubscribedMaxQualityChange_def)
  have r: "onSubscribedMaxQualityChange track_A_low_B_medium"
    by (simp add: track_A_low_B_medium_def NewMediaTrackSubscriptions_def
        OnSubscribedMaxQualityChange_def)
  have old: "maxSubscribedQuality track_A_low_B_medium = VideoQuality_LOW"
    by (simp add: track_A_low_B_medium_def NewMediaTrackSubscriptions_def
        OnSubscribedMaxQualityChange_def VideoQuality_defs)
  have new: "maxSubscribedQuality (fst (updateQualityChange track_A_low_B_medium)) =
             VideoQuality_MEDIUM"
    by (simp add: track_A_low_B_medium_def NewMediaTrackSubscriptions_def
        OnSubscribedMaxQualityChange_def updateQualityChange_def VideoQuality_defs video_params_def)
  show ?thesis
    using updateQualityChange_publishes_pointwise_max [OF k v n r surjective_pairing]
      k v n r old new subscribedQualities_MEDIUM
    by (simp add: VideoQuality_defs)
qed

text \<open>
  C3. Whenever \<open>updateQualityChange\<close> makes the upcall, it passes the new current max and a
  descriptor that is the three entries (LOW, disabled), (MEDIUM, disabled),
  (HIGH, disabled) when the new max is OFF, and otherwise one entry (q, q \<le> new max) for
  each q from LOW up to HIGH, in this order.
\<close>

theorem upcall_descriptor_shape:
  assumes "Upcall descriptor newMax \<in> set (snd (updateQualityChange t))"
  shows "newMax = maxSubscribedQuality (fst (updateQualityChange t)) \<and>
         descriptor =
           (if newMax = VideoQuality_OFF
            then [\<lparr>Quality = VideoQuality_LOW, Enabled = False\<rparr>,
                  \<lparr>Quality = VideoQuality_MEDIUM, Enabled = False\<rparr>,
                  \<lparr>Quality = VideoQuality_HIGH, Enabled = False\<rparr>]
            else map (\<lambda>q. \<lparr>Quality = q, Enabled = q \<le> newMax\<rparr>)
                   [VideoQuality_LOW, VideoQuality_MEDIUM, VideoQuality_HIGH])"
  using assms
  by (auto simp: updateQualityChange_def Let_def subscribedQualities_def layers_loop_LOW
      split: if_splits)

theorem upcall_descriptor_shape_witness:
  "Upcall [\<lparr>Quality = VideoQuality_LOW, Enabled = True\<rparr>,
           \<lparr>Quality = VideoQuality_MEDIUM, Enabled = True\<rparr>,
           \<lparr>Quality = VideoQuality_HIGH, Enabled = False\<rparr>] VideoQuality_MEDIUM
     \<in> set (snd (updateQualityChange track_A_low_B_medium)) \<and>
   [\<lparr>Quality = VideoQuality_LOW, Enabled = True\<rparr>,
    \<lparr>Quality = VideoQuality_MEDIUM, Enabled = True\<rparr>,
    \<lparr>Quality = VideoQuality_HIGH, Enabled = False\<rparr>] =
   map (\<lambda>q. \<lparr>Quality = q, Enabled = q \<le> VideoQuality_MEDIUM\<rparr>)
     [VideoQuality_LOW, VideoQuality_MEDIUM, VideoQuality_HIGH]"
proof -
  have m: "max_loop VideoQuality_OFF [(''A'', VideoQuality_LOW), (''B'', VideoQuality_MEDIUM)] =
           VideoQuality_MEDIUM"
    by (simp add: VideoQuality_defs)
  have h: "Upcall [\<lparr>Quality = VideoQuality_LOW, Enabled = True\<rparr>,
           \<lparr>Quality = VideoQuality_MEDIUM, Enabled = True\<rparr>,
           \<lparr>Quality = VideoQuality_HIGH, Enabled = False\<rparr>] VideoQuality_MEDIUM
     \<in> set (snd (updateQualityChange track_A_low_B_medium))"
    by (simp add: track_A_low_B_medium_def NewMediaTrackSubscriptions_def
        OnSubscribedMaxQualityChange_def updateQualityChange_def video_params_def m
        subscribedQualities_MEDIUM Let_def)
       (simp add: VideoQuality_defs)
  show ?thesis
    using upcall_descriptor_shape [OF h] h by (simp add: VideoQuality_defs)
qed

section \<open>Notifications\<close>

lemma lookup_delete_key: "lookup (delete_key k m) = (lookup m)(k := None)"
  by (cases m) (auto simp: lookup_def delete_conv')

lemma lookup_update: "lookup (GoMap (AList.update k v kvs)) = (lookup (GoMap kvs))(k \<mapsto> v)"
  by (auto simp: lookup_def update_conv')

lemma wf_delete_key: "wf_gomap m \<Longrightarrow> wf_gomap (delete_key k m)"
  by (cases m) (auto simp: wf_gomap_def distinct_delete)

lemma wf_update: "wf_gomap (GoMap kvs) \<Longrightarrow> wf_gomap (GoMap (AList.update k v kvs))"
  by (auto simp: wf_gomap_def distinct_update)

lemma values_delete_key: "set (map_values (delete_key k m)) \<subseteq> set (map_values m)"
  by (cases m) (auto simp: map_values_def AList.delete_eq)

lemma values_update: "set (map snd (AList.update k v kvs)) \<subseteq> insert v (set (map snd kvs))"
  by (induction kvs) auto

lemma track_A_low_B_medium_simps:
  "params track_A_low_B_medium = video_params"
  "subscribedTracks track_A_low_B_medium = []"
  "maxSubscriberQuality track_A_low_B_medium =
     GoMap [(''A'', VideoQuality_LOW), (''B'', VideoQuality_MEDIUM)]"
  "maxSubscriberNodeQuality track_A_low_B_medium = NilMap"
  "maxSubscribedQuality track_A_low_B_medium = VideoQuality_LOW"
  "onSubscribedMaxQualityChange track_A_low_B_medium = True"
  by (simp_all add: track_A_low_B_medium_def NewMediaTrackSubscriptions_def
      OnSubscribedMaxQualityChange_def VideoQuality_LOW_def)

text \<open>On a video track whose per-subscriber map was made, the function is its four cases.\<close>

lemma NotifySubscriberMaxQuality_unfold:
  assumes "Kind (params t) = TrackType_VIDEO" "maxSubscriberQuality t = GoMap kvs"
  shows "NotifySubscriberMaxQuality x q t =
    Inr (if q = VideoQuality_OFF
         then (if lookup (GoMap kvs) x = None then (t, [])
               else updateQualityChange (t\<lparr>maxSubscriberQuality := GoMap (AList.delete x kvs)\<rparr>))
         else (if lookup (GoMap kvs) x = Some q then (t, [])
               else updateQualityChange (t\<lparr>maxSubscriberQuality := GoMap (AList.update x q kvs)\<rparr>)))"
  using assms by (auto simp: NotifySubscriberMaxQuality_def split: option.splits)

text \<open>
  C4. On a video track (the constructor has made the per-subscriber map), a call of
  \<open>NotifySubscriberMaxQuality x q\<close>: with q = OFF and no entry for x returns with the state
  as it was, without recomputing; with q = OFF and an entry for x it deletes the entry and
  recomputes; with another q that is already the entry of x it returns with the state as
  it was, without recomputing; otherwise it sets the entry of x to q and recomputes. So a
  map that holds no OFF holds none afterwards.
\<close>

theorem NotifySubscriberMaxQuality_cases:
  assumes "Kind (params t) = TrackType_VIDEO"
    and "maxSubscriberQuality t = GoMap kvs"
  shows "(q = VideoQuality_OFF \<and> lookup (GoMap kvs) x = None \<longrightarrow>
            NotifySubscriberMaxQuality x q t = Inr (t, [])) \<and>
         (q = VideoQuality_OFF \<and> lookup (GoMap kvs) x \<noteq> None \<longrightarrow>
            NotifySubscriberMaxQuality x q t =
              Inr (updateQualityChange (t\<lparr>maxSubscriberQuality := GoMap (AList.delete x kvs)\<rparr>)) \<and>
            lookup (GoMap (AList.delete x kvs)) = (lookup (GoMap kvs))(x := None)) \<and>
         (q \<noteq> VideoQuality_OFF \<and> lookup (GoMap kvs) x = Some q \<longrightarrow>
            NotifySubscriberMaxQuality x q t = Inr (t, [])) \<and>
         (q \<noteq> VideoQuality_OFF \<and> lookup (GoMap kvs) x \<noteq> Some q \<longrightarrow>
            NotifySubscriberMaxQuality x q t =
              Inr (updateQualityChange (t\<lparr>maxSubscriberQuality := GoMap (AList.update x q kvs)\<rparr>)) \<and>
            lookup (GoMap (AList.update x q kvs)) = (lookup (GoMap kvs))(x \<mapsto> q)) \<and>
         (\<forall>t' evs. VideoQuality_OFF \<notin> set (map_values (GoMap kvs)) \<and>
                    NotifySubscriberMaxQuality x q t = Inr (t', evs) \<longrightarrow>
                    VideoQuality_OFF \<notin> set (map_values (maxSubscriberQuality t')))"
proof -
  note u = NotifySubscriberMaxQuality_unfold[OF assms, of x q]
  have off: "VideoQuality_OFF \<notin> set (map_values (maxSubscriberQuality t'))"
    if no: "VideoQuality_OFF \<notin> set (map_values (GoMap kvs))"
      and r: "NotifySubscriberMaxQuality x q t = Inr (t', evs)" for t' evs
  proof -
    have d: "VideoQuality_OFF \<notin> set (map_values (GoMap (AList.delete x kvs)))"
      using no values_delete_key[of x "GoMap kvs"] by auto
    have up: "q \<noteq> VideoQuality_OFF \<Longrightarrow>
              VideoQuality_OFF \<notin> set (map_values (GoMap (AList.update x q kvs)))"
      using no values_update[of x q kvs] by (auto simp: map_values_def)
    have "maxSubscriberQuality t' = GoMap kvs \<or>
          (q = VideoQuality_OFF \<and> maxSubscriberQuality t' = GoMap (AList.delete x kvs)) \<or>
          (q \<noteq> VideoQuality_OFF \<and> maxSubscriberQuality t' = GoMap (AList.update x q kvs))"
      using r assms(2) unfolding u
      by (auto split: if_splits dest!: arg_cong[where f = "\<lambda>p. maxSubscriberQuality (fst p)"]
          simp: updateQualityChange_fields)
    then show ?thesis using no d up by auto
  qed
  show ?thesis
    unfolding u using off unfolding u
    by (simp add: lookup_update lookup_delete_key[of x "GoMap kvs", simplified])
qed

theorem NotifySubscriberMaxQuality_cases_witness:
  "Kind (params track_A_low_B_medium) = TrackType_VIDEO \<and>
   maxSubscriberQuality track_A_low_B_medium =
     GoMap [(''A'', VideoQuality_LOW), (''B'', VideoQuality_MEDIUM)] \<and>
   NotifySubscriberMaxQuality ''C'' VideoQuality_OFF track_A_low_B_medium =
     Inr (track_A_low_B_medium, []) \<and>
   NotifySubscriberMaxQuality ''B'' VideoQuality_OFF track_A_low_B_medium =
     Inr (updateQualityChange
            (track_A_low_B_medium\<lparr>maxSubscriberQuality := GoMap [(''A'', VideoQuality_LOW)]\<rparr>)) \<and>
   NotifySubscriberMaxQuality ''A'' VideoQuality_LOW track_A_low_B_medium =
     Inr (track_A_low_B_medium, []) \<and>
   NotifySubscriberMaxQuality ''A'' VideoQuality_HIGH track_A_low_B_medium =
     Inr (updateQualityChange
            (track_A_low_B_medium\<lparr>maxSubscriberQuality :=
               GoMap [(''A'', VideoQuality_HIGH), (''B'', VideoQuality_MEDIUM)]\<rparr>))"
proof -
  have k: "Kind (params track_A_low_B_medium) = TrackType_VIDEO"
    by (simp add: track_A_low_B_medium_simps video_params_def)
  have m: "maxSubscriberQuality track_A_low_B_medium =
           GoMap [(''A'', VideoQuality_LOW), (''B'', VideoQuality_MEDIUM)]"
    by (simp add: track_A_low_B_medium_simps)
  show ?thesis
    using NotifySubscriberMaxQuality_cases [OF k m, of VideoQuality_OFF "''C''"]
      NotifySubscriberMaxQuality_cases [OF k m, of VideoQuality_OFF "''B''"]
      NotifySubscriberMaxQuality_cases [OF k m, of VideoQuality_LOW "''A''"]
      NotifySubscriberMaxQuality_cases [OF k m, of VideoQuality_HIGH "''A''"]
      k m
    by (simp add: lookup_def AList.delete_eq VideoQuality_defs)
qed

text \<open>
  C2. \<open>NewMediaTrackSubscriptions\<close> makes the per-subscriber map only; the per-node map
  stays nil. On the fresh engine of a video track, \<open>NotifySubscriberNodeMaxQuality\<close> with
  MEDIUM reaches the assignment to the nil map and panics, where the same call of
  \<open>NotifySubscriberMaxQuality\<close> stores the quality and returns. With OFF it returns with
  the state as it was.
\<close>

theorem NotifySubscriberNodeMaxQuality_fresh_panics:
  "NotifySubscriberNodeMaxQuality ''n1'' VideoQuality_MEDIUM (NewMediaTrackSubscriptions video_params)
     = Inl AssignmentToEntryInNilMap \<and>
   NotifySubscriberNodeMaxQuality ''n1'' VideoQuality_OFF (NewMediaTrackSubscriptions video_params)
     = Inr (NewMediaTrackSubscriptions video_params, []) \<and>
   (\<exists>t. NotifySubscriberMaxQuality ''n1'' VideoQuality_MEDIUM (NewMediaTrackSubscriptions video_params)
           = Inr (t, []) \<and>
         lookup (maxSubscriberQuality t) ''n1'' = Some VideoQuality_MEDIUM)"
  by (simp add: NotifySubscriberNodeMaxQuality_def NotifySubscriberMaxQuality_def
      NewMediaTrackSubscriptions_def video_params_def lookup_def VideoQuality_defs
      updateQualityChange_def Let_def)

section \<open>Audio tracks\<close>

lemma apply_op_not_video:
  "Kind (params t) \<noteq> TrackType_VIDEO \<Longrightarrow> apply_op op t = Inr (t, [])"
  by (cases op)
     (simp_all add: NotifySubscriberMaxQuality_def NotifySubscriberNodeMaxQuality_def
       updateQualityChange_def startMaxQualityTimer_def)

lemma run_ops_not_video:
  "Kind (params t) \<noteq> TrackType_VIDEO \<Longrightarrow> run_ops ops t = Inr (t, [])"
  by (induction ops) (simp_all add: apply_op_not_video)

text \<open>
  C6, as stated, fails: the constructor leaves the current max at the zero value of the
  type, which is LOW, and no operation on an audio track assigns it, so it is LOW and not
  OFF before and after every run.
\<close>

theorem audio_track_current_max_counterexample:
  "run_ops [StartInitialTimer, NotifySubscriber ''A'' VideoQuality_HIGH, Recompute] audio_track =
     Inr (audio_track, []) \<and>
   maxSubscribedQuality audio_track = VideoQuality_LOW \<and>
   maxSubscribedQuality audio_track \<noteq> VideoQuality_OFF"
  by (simp add: audio_track_def audio_params_def OnSubscribedMaxQualityChange_def
      NewMediaTrackSubscriptions_def NotifySubscriberMaxQuality_def updateQualityChange_def
      startMaxQualityTimer_def VideoQuality_defs)

text \<open>
  C6, amended. On an audio track every run of notify-subscriber, notify-node, recompute
  and start-initial-timer returns with the state as it was, so the current max keeps the
  value it had, and makes no upcall; this from any state and in particular from the
  constructed engine, with or without a registered upcall, whose two maps are empty.
\<close>

theorem audio_track_operations_keep_state:
  assumes "Kind p = TrackType_AUDIO"
    and "params t = p"
    and "t0 = NewMediaTrackSubscriptions p \<or>
         t0 = OnSubscribedMaxQualityChange (NewMediaTrackSubscriptions p)"
  shows "run_ops ops t = Inr (t, []) \<and>
         run_ops ops t0 = Inr (t0, []) \<and>
         entries (maxSubscriberQuality t0) = [] \<and>
         entries (maxSubscriberNodeQuality t0) = []"
proof -
  have "Kind (params t0) \<noteq> TrackType_VIDEO" "Kind (params t) \<noteq> TrackType_VIDEO"
    using assms by (auto simp: OnSubscribedMaxQualityChange_def NewMediaTrackSubscriptions_def)
  then show ?thesis
    using assms(3)
    by (auto simp: run_ops_not_video OnSubscribedMaxQualityChange_def
        NewMediaTrackSubscriptions_def)
qed

theorem audio_track_operations_keep_state_witness:
  "Kind audio_params = TrackType_AUDIO \<and>
   params audio_track = audio_params \<and>
   run_ops [StartInitialTimer, NotifySubscriber ''A'' VideoQuality_HIGH,
            NotifyNode ''n1'' VideoQuality_MEDIUM, Recompute,
            NotifySubscriber ''A'' VideoQuality_OFF] audio_track = Inr (audio_track, []) \<and>
   entries (maxSubscriberQuality audio_track) = [] \<and>
   entries (maxSubscriberNodeQuality audio_track) = []"
proof -
  have k: "Kind audio_params = TrackType_AUDIO"
    by (simp add: audio_params_def)
  have p: "params audio_track = audio_params"
    by (simp add: audio_track_def OnSubscribedMaxQualityChange_def NewMediaTrackSubscriptions_def)
  have c: "audio_track = NewMediaTrackSubscriptions audio_params \<or>
           audio_track = OnSubscribedMaxQualityChange (NewMediaTrackSubscriptions audio_params)"
    by (simp add: audio_track_def)
  show ?thesis
    using audio_track_operations_keep_state [OF k p c] k p by simp
qed

section \<open>Revoking subscribers\<close>

lemma found_iff: "found subID allowed \<longleftrightarrow> subID \<in> set allowed"
  by (induction allowed) auto

lemma revoke_range_filter:
  "revoke_range reg allowed (revoked, evs) =
     (revoked @ map fst (filter (\<lambda>(subID, subTrack). subID \<notin> set allowed) reg),
      evs @ map (\<lambda>(subID, subTrack). DownTrackClose (DownTrackOf subTrack))
              (filter (\<lambda>(subID, subTrack). subID \<notin> set allowed) reg))"
  by (induction reg arbitrary: revoked evs) (auto simp: found_iff)

lemma track_with_ABC_simps:
  "params track_with_ABC = video_params"
  "subscribedTracks track_with_ABC =
          [(''A'', \<lparr>SubscriberID = ''A'', DownTrackOf = 1, pubMuted = False\<rparr>),
           (''B'', \<lparr>SubscriberID = ''B'', DownTrackOf = 2, pubMuted = False\<rparr>),
           (''C'', \<lparr>SubscriberID = ''C'', DownTrackOf = 3, pubMuted = False\<rparr>)]"
  "maxSubscriberQuality track_with_ABC =
     GoMap [(''A'', VideoQuality_LOW), (''B'', VideoQuality_HIGH), (''C'', VideoQuality_LOW)]"
  "maxSubscriberNodeQuality track_with_ABC = NilMap"
  "maxSubscribedQuality track_with_ABC = VideoQuality_HIGH"
  "onSubscribedMaxQualityChange track_with_ABC = True"
  by (simp_all add: track_with_ABC_def NewMediaTrackSubscriptions_def
      OnSubscribedMaxQualityChange_def)

text \<open>
  C7. \<open>RevokeDisallowedSubscribers\<close> returns the ids of the registry that are not among the
  allowed ids, each once, and closes the forwarder of the subscribed track of each
  returned id, and no other.
\<close>

theorem RevokeDisallowedSubscribers_exact:
  assumes "distinct (map fst (subscribedTracks t))"
    and "RevokeDisallowedSubscribers allowedSubscriberIDs t = (revoked, evs)"
  shows "set revoked = {subID. IsSubscriber subID t \<and> subID \<notin> set allowedSubscriberIDs} \<and>
         distinct revoked \<and>
         evs = map (\<lambda>subID. DownTrackClose (DownTrackOf (the (getSubscribedTrack subID t)))) revoked"
proof -
  let ?keep = "filter (\<lambda>(subID, subTrack). subID \<notin> set allowedSubscriberIDs) (subscribedTracks t)"
  have r: "revoked = map fst ?keep"
    and e: "evs = map (\<lambda>(subID, subTrack). DownTrackClose (DownTrackOf subTrack)) ?keep"
    using assms(2) by (simp_all add: RevokeDisallowedSubscribers_def revoke_range_filter)
  have s: "set revoked = {subID. IsSubscriber subID t \<and> subID \<notin> set allowedSubscriberIDs}"
    unfolding r IsSubscriber_def
    by (force simp: map_of_eq_None_iff image_iff)
  have d: "distinct revoked"
    unfolding r using assms(1) by (simp add: distinct_map_filter)
  have "\<And>subID subTrack. (subID, subTrack) \<in> set ?keep \<Longrightarrow>
          getSubscribedTrack subID t = Some subTrack"
    using assms(1) by (simp add: getSubscribedTrack_def)
  then have "evs = map (\<lambda>subID. DownTrackClose (DownTrackOf (the (getSubscribedTrack subID t)))) revoked"
    unfolding r e by (auto simp del: set_filter)
  with s d show ?thesis by simp
qed

theorem RevokeDisallowedSubscribers_exact_witness:
  "distinct (map fst (subscribedTracks track_with_ABC)) \<and>
   RevokeDisallowedSubscribers [''B'', ''Z''] track_with_ABC =
     ([''A'', ''C''], [DownTrackClose 1, DownTrackClose 3]) \<and>
   set [''A'', ''C''] = {subID. IsSubscriber subID track_with_ABC \<and> subID \<notin> set [''B'', ''Z'']}"
proof -
  have d: "distinct (map fst (subscribedTracks track_with_ABC))"
    by (simp add: track_with_ABC_simps)
  have r: "RevokeDisallowedSubscribers [''B'', ''Z''] track_with_ABC =
           ([''A'', ''C''], [DownTrackClose 1, DownTrackClose 3])"
    by (simp add: RevokeDisallowedSubscribers_def track_with_ABC_simps)
  show ?thesis
    using RevokeDisallowedSubscribers_exact [OF d r] d r by simp
qed

section \<open>The burst of binding reports\<close>

lemma report_loop_ok:
  "i \<le> 6 \<Longrightarrow> (\<forall>j. i \<le> j \<and> j \<le> 6 \<longrightarrow> w j = None) \<Longrightarrow>
   report_loop w batch i = concat (replicate (6 - i) [PCWriteRTCP batch, Sleep 20]) @ [PCWriteRTCP batch]"
proof (induction w batch i rule: report_loop.induct)
  case (1 w batch i)
  show ?case
  proof (cases "i > 5")
    case True
    with "1.prems" have "i = 6" by simp
    with "1.prems" show ?thesis by (simp add: report_loop.simps[of w batch 6])
  next
    case False
    then have wi: "w i = None" using "1.prems" by simp
    have "report_loop w batch (i + 1) =
          concat (replicate (6 - (i + 1)) [PCWriteRTCP batch, Sleep 20]) @ [PCWriteRTCP batch]"
      using "1.IH"[OF wi False] False "1.prems" by simp
    moreover have "6 - i = Suc (6 - (i + 1))" using False by simp
    ultimately show ?thesis
      using wi False by (subst report_loop.simps) (simp del: replicate.simps add: replicate_Suc)
  qed
qed

lemma report_loop_fail:
  "i \<le> k \<Longrightarrow> k \<le> 6 \<Longrightarrow> (\<forall>j. i \<le> j \<and> j < k \<longrightarrow> w j = None) \<Longrightarrow> w k = Some err \<Longrightarrow>
   report_loop w batch i =
     concat (replicate (k - i) [PCWriteRTCP batch, Sleep 20]) @
     [PCWriteRTCP batch, LogError ''could not write RTCP'']"
proof (induction w batch i rule: report_loop.induct)
  case (1 w batch i)
  show ?case
  proof (cases "i = k")
    case True
    with "1.prems" show ?thesis by (subst report_loop.simps) simp
  next
    case False
    then have lt: "i < k" using "1.prems" by simp
    then have wi: "w i = None" using "1.prems" by simp
    have n5: "\<not> i > 5" using lt "1.prems" by simp
    have "report_loop w batch (i + 1) =
          concat (replicate (k - (i + 1)) [PCWriteRTCP batch, Sleep 20]) @
          [PCWriteRTCP batch, LogError ''could not write RTCP'']"
      using "1.IH"[OF wi n5] lt "1.prems" by simp
    moreover have "k - i = Suc (k - (i + 1))" using lt by simp
    ultimately show ?thesis
      using wi n5 by (subst report_loop.simps) (simp del: replicate.simps add: replicate_Suc)
  qed
qed

lemma write_times_burst:
  "write_times now (concat (replicate n [PCWriteRTCP batch, Sleep 20]) @ rest) =
     map (\<lambda>j. now + 20 * j) [0..<n] @ write_times (now + 20 * n) rest"
proof (induction n arbitrary: now)
  case 0
  then show ?case by simp
next
  case (Suc n)
  have "map (\<lambda>j. now + 20 * j) [0..<Suc n] = now # map (\<lambda>j. now + 20 + 20 * j) [0..<n]"
    by (simp add: upt_conv_Cons map_Suc_upt[symmetric] del: upt_Suc)
  then show ?case
    using Suc.IH[of "now + 20"] by (simp del: upt_Suc add: add.assoc)
qed

text \<open>
  C8. \<open>sendDownTrackBindingReports\<close> sends nothing when the subscriber has no subscribed
  track or the forwarder gives no chunks. Otherwise, when the writes succeed, it writes the
  source description seven times with a sleep of 20 ms between two writes, at 0, 20, ...,
  120 ms of slept time; when the write number k fails, that write is the last one, the
  error is logged and the trace ends.
\<close>

theorem sendDownTrackBindingReports_burst:
  "(getSubscribedTrack (ID sub) t = None \<longrightarrow>
      sendDownTrackBindingReports sub createChunks t = []) \<and>
   (\<forall>subTrack. getSubscribedTrack (ID sub) t = Some subTrack \<and>
               createChunks (DownTrackOf subTrack) = None \<longrightarrow>
      sendDownTrackBindingReports sub createChunks t = []) \<and>
   (\<forall>subTrack chunks.
      getSubscribedTrack (ID sub) t = Some subTrack \<and>
      createChunks (DownTrackOf subTrack) = Some chunks \<longrightarrow>
      ((\<forall>j\<le>6. WriteRTCP sub j = None) \<longrightarrow>
         sendDownTrackBindingReports sub createChunks t =
           concat (replicate 6 [PCWriteRTCP chunks, Sleep 20]) @ [PCWriteRTCP chunks] \<and>
         write_times 0 (sendDownTrackBindingReports sub createChunks t) =
           [0, 20, 40, 60, 80, 100, 120]) \<and>
      (\<forall>k err. k \<le> 6 \<and> (\<forall>j<k. WriteRTCP sub j = None) \<and> WriteRTCP sub k = Some err \<longrightarrow>
         sendDownTrackBindingReports sub createChunks t =
           concat (replicate k [PCWriteRTCP chunks, Sleep 20]) @
           [PCWriteRTCP chunks, LogError ''could not write RTCP''] \<and>
         write_times 0 (sendDownTrackBindingReports sub createChunks t) =
           map (\<lambda>j. 20 * j) [0..<Suc k]))"
proof -
  have ok: "sendDownTrackBindingReports sub createChunks t =
           concat (replicate 6 [PCWriteRTCP chunks, Sleep 20]) @ [PCWriteRTCP chunks] \<and>
         write_times 0 (sendDownTrackBindingReports sub createChunks t) =
           [0, 20, 40, 60, 80, 100, 120]"
    if g: "getSubscribedTrack (ID sub) t = Some subTrack"
      and c: "createChunks (DownTrackOf subTrack) = Some chunks"
      and w: "\<forall>j\<le>6. WriteRTCP sub j = None" for subTrack chunks
  proof -
    have s: "sendDownTrackBindingReports sub createChunks t =
             concat (replicate 6 [PCWriteRTCP chunks, Sleep 20]) @ [PCWriteRTCP chunks]"
      using g c w report_loop_ok[of 0 "WriteRTCP sub" chunks]
      by (simp add: sendDownTrackBindingReports_def)
    have "write_times 0 (concat (replicate 6 [PCWriteRTCP chunks, Sleep 20]) @ [PCWriteRTCP chunks])
          = map (\<lambda>j. 0 + 20 * j) [0..<6] @ write_times (0 + 20 * 6) [PCWriteRTCP chunks]"
      by (rule write_times_burst)
    also have "\<dots> = [0, 20, 40, 60, 80, 100, 120]"
      by (simp add: upt_conv_Cons)
    finally show ?thesis using s by simp
  qed
  have fail: "sendDownTrackBindingReports sub createChunks t =
           concat (replicate k [PCWriteRTCP chunks, Sleep 20]) @
           [PCWriteRTCP chunks, LogError ''could not write RTCP''] \<and>
         write_times 0 (sendDownTrackBindingReports sub createChunks t) =
           map (\<lambda>j. 20 * j) [0..<Suc k]"
    if g: "getSubscribedTrack (ID sub) t = Some subTrack"
      and c: "createChunks (DownTrackOf subTrack) = Some chunks"
      and k: "k \<le> 6" and w: "\<forall>j<k. WriteRTCP sub j = None" and e: "WriteRTCP sub k = Some err"
    for subTrack chunks k err
  proof -
    have s: "sendDownTrackBindingReports sub createChunks t =
           concat (replicate k [PCWriteRTCP chunks, Sleep 20]) @
           [PCWriteRTCP chunks, LogError ''could not write RTCP'']"
      using g c k w e report_loop_fail[of 0 k "WriteRTCP sub" err chunks]
      by (simp add: sendDownTrackBindingReports_def)
    have "write_times 0 (concat (replicate k [PCWriteRTCP chunks, Sleep 20]) @
           [PCWriteRTCP chunks, LogError ''could not write RTCP''])
          = map (\<lambda>j. 0 + 20 * j) [0..<k] @
            write_times (0 + 20 * k) [PCWriteRTCP chunks, LogError ''could not write RTCP'']"
      by (rule write_times_burst)
    also have "\<dots> = map (\<lambda>j. 20 * j) [0..<Suc k]"
      by simp
    finally show ?thesis using s by simp
  qed
  have absent: "getSubscribedTrack (ID sub) t = None \<longrightarrow>
      sendDownTrackBindingReports sub createChunks t = []"
    by (simp add: sendDownTrackBindingReports_def)
  have nochunks: "\<forall>subTrack. getSubscribedTrack (ID sub) t = Some subTrack \<and>
               createChunks (DownTrackOf subTrack) = None \<longrightarrow>
      sendDownTrackBindingReports sub createChunks t = []"
    by (simp add: sendDownTrackBindingReports_def)
  show ?thesis
    using absent nochunks ok fail by blast
qed

theorem sendDownTrackBindingReports_burst_witness:
  "sendDownTrackBindingReports (participant ''D'') (\<lambda>d. Some [5]) track_with_ABC = [] \<and>
   sendDownTrackBindingReports (participant ''A'') (\<lambda>d. None) track_with_ABC = [] \<and>
   write_times 0 (sendDownTrackBindingReports (participant ''A'') (\<lambda>d. Some [5]) track_with_ABC) =
     [0, 20, 40, 60, 80, 100, 120] \<and>
   sendDownTrackBindingReports
     ((participant ''A'')\<lparr>WriteRTCP := (\<lambda>n. if n = 2 then Some ErrConnectionClosed else None)\<rparr>)
     (\<lambda>d. Some [5]) track_with_ABC =
     [PCWriteRTCP [5], Sleep 20, PCWriteRTCP [5], Sleep 20, PCWriteRTCP [5],
      LogError ''could not write RTCP'']"
proof -
  let ?fail = "(participant ''A'')\<lparr>WriteRTCP := (\<lambda>n. if n = 2 then Some ErrConnectionClosed else None)\<rparr>"
  have gD: "getSubscribedTrack (ID (participant ''D'')) track_with_ABC = None"
    by (simp add: getSubscribedTrack_def participant_def track_with_ABC_simps)
  have gA: "getSubscribedTrack (ID (participant ''A'')) track_with_ABC =
            Some \<lparr>SubscriberID = ''A'', DownTrackOf = 1, pubMuted = False\<rparr>"
    by (simp add: getSubscribedTrack_def participant_def track_with_ABC_simps)
  have gF: "getSubscribedTrack (ID ?fail) track_with_ABC =
            Some \<lparr>SubscriberID = ''A'', DownTrackOf = 1, pubMuted = False\<rparr>"
    by (simp add: getSubscribedTrack_def participant_def track_with_ABC_simps)
  have w: "\<forall>j\<le>6. WriteRTCP (participant ''A'') j = None"
    by (simp add: participant_def)
  have f: "(2::nat) \<le> 6 \<and> (\<forall>j<2. WriteRTCP ?fail j = None) \<and>
           WriteRTCP ?fail 2 = Some ErrConnectionClosed"
    by (simp add: participant_def)
  have c5: "(\<lambda>d::DownTrack. Some [5::nat]) (DownTrackOf \<lparr>SubscriberID = ''A'', DownTrackOf = 1, pubMuted = False\<rparr>) = Some [5]"
    by simp
  have cN: "(\<lambda>d::DownTrack. None :: SourceDescriptionChunk list option)
              (DownTrackOf \<lparr>SubscriberID = ''A'', DownTrackOf = 1, pubMuted = False\<rparr>) = None"
    by simp
  have 1: "sendDownTrackBindingReports (participant ''D'') (\<lambda>d. Some [5]) track_with_ABC = []"
    using sendDownTrackBindingReports_burst [of "participant ''D''" track_with_ABC "\<lambda>d. Some [5]"] gD
    by blast
  have 2: "sendDownTrackBindingReports (participant ''A'') (\<lambda>d. None) track_with_ABC = []"
    using sendDownTrackBindingReports_burst [of "participant ''A''" track_with_ABC "\<lambda>d. None"] gA cN
    by blast
  have 3: "write_times 0 (sendDownTrackBindingReports (participant ''A'') (\<lambda>d. Some [5]) track_with_ABC) =
     [0, 20, 40, 60, 80, 100, 120]"
    using sendDownTrackBindingReports_burst [of "participant ''A''" track_with_ABC "\<lambda>d. Some [5]"]
      gA c5 w
    by blast
  have "sendDownTrackBindingReports ?fail (\<lambda>d. Some [5]) track_with_ABC =
        concat (replicate 2 [PCWriteRTCP [5], Sleep 20]) @
        [PCWriteRTCP [5], LogError ''could not write RTCP'']"
    using sendDownTrackBindingReports_burst [of ?fail track_with_ABC "\<lambda>d. Some [5]"] gF c5 f
    by blast
  then have 4: "sendDownTrackBindingReports ?fail (\<lambda>d. Some [5]) track_with_ABC =
     [PCWriteRTCP [5], Sleep 20, PCWriteRTCP [5], Sleep 20, PCWriteRTCP [5],
      LogError ''could not write RTCP'']"
    by (simp add: numeral_2_eq_2)
  show ?thesis
    using 1 2 3 4 by simp
qed

section \<open>Adding a subscriber\<close>

lemma AddSubscriber_present:
  "IsSubscriber (ID sub) t \<Longrightarrow> AddSubscriber sub newDownTrack t = (t, [], Inr None)"
  by (simp add: AddSubscriber_def IsSubscriber_def)

text \<open>
  C9. For a subscriber already in the registry \<open>AddSubscriber\<close> returns the pair
  (nil, nil), no forwarder and no error, leaves the state as it was, registry, maps and
  current max included, and calls no collaborator.
\<close>

theorem AddSubscriber_already_subscribed:
  assumes "IsSubscriber (ID sub) t"
    and "AddSubscriber sub newDownTrack t = (t', evs, res)"
  shows "res = Inr None \<and> evs = [] \<and> t' = t \<and>
         subscribedTracks t' = subscribedTracks t \<and>
         maxSubscriberQuality t' = maxSubscriberQuality t \<and>
         maxSubscriberNodeQuality t' = maxSubscriberNodeQuality t \<and>
         maxSubscribedQuality t' = maxSubscribedQuality t"
  using assms by (auto simp: AddSubscriber_present)

theorem AddSubscriber_already_subscribed_witness:
  "IsSubscriber (ID (participant ''A'')) track_with_ABC \<and>
   AddSubscriber (participant ''A'') (Inr 4) track_with_ABC = (track_with_ABC, [], Inr None)"
proof -
  have h: "IsSubscriber (ID (participant ''A'')) track_with_ABC"
    by (simp add: IsSubscriber_def participant_def track_with_ABC_simps)
  have r: "AddSubscriber (participant ''A'') (Inr 4) track_with_ABC =
           (track_with_ABC, [], Inr None)"
    by (simp add: AddSubscriber_def participant_def track_with_ABC_simps)
  show ?thesis
    using AddSubscriber_already_subscribed [OF h r] h r by simp
qed

lemma AddSubscriber_new:
  assumes "\<not> IsSubscriber (ID sub) t"
  shows "(isl newDownTrack \<or> attach_fails sub \<longrightarrow>
            (\<exists>evs err. AddSubscriber sub newDownTrack t = (t, evs, Inl err))) \<and>
         (\<not> isl newDownTrack \<and> \<not> attach_fails sub \<longrightarrow>
            (\<exists>evs. AddSubscriber sub newDownTrack t =
               (t\<lparr>subscribedTracks :=
                    AList.update (ID sub)
                      \<lparr>SubscriberID = ID sub, DownTrackOf = projr newDownTrack,
                       pubMuted = IsMuted (params t)\<rparr> (subscribedTracks t)\<rparr>,
                evs, Inr (Some (projr newDownTrack)))))"
  using assms
  by (auto simp: AddSubscriber_def IsSubscriber_def attach_fails_def Let_def
      split: sum.splits option.splits)

text \<open>
  C10. Whenever \<open>AddSubscriber\<close> returns an error the state is as it was, and the
  subscriber was not and is not in the registry; for a new subscriber a failure of the
  forwarder's construction or of its attachment (add-track or add-transceiver error,
  no transceiver, no sender) is such an error return. The registry changes only when all
  these steps have succeeded, and then holds the subscribed track of the new forwarder.
\<close>

theorem AddSubscriber_error_leaves_registry:
  assumes "AddSubscriber sub newDownTrack t = (t', evs, res)"
  shows "(\<forall>err. res = Inl err \<longrightarrow>
            t' = t \<and> \<not> IsSubscriber (ID sub) t \<and> \<not> IsSubscriber (ID sub) t') \<and>
         (\<not> IsSubscriber (ID sub) t \<and> (isl newDownTrack \<or> attach_fails sub) \<longrightarrow>
            (\<exists>err. res = Inl err)) \<and>
         (subscribedTracks t' \<noteq> subscribedTracks t \<longrightarrow>
            \<not> isl newDownTrack \<and> \<not> attach_fails sub \<and>
            res = Inr (Some (projr newDownTrack)) \<and>
            getSubscribedTrack (ID sub) t' =
              Some \<lparr>SubscriberID = ID sub, DownTrackOf = projr newDownTrack,
                    pubMuted = IsMuted (params t)\<rparr>)"
proof (cases "IsSubscriber (ID sub) t")
  case True
  then show ?thesis
    using assms by (auto simp: AddSubscriber_present)
next
  case False
  show ?thesis
  proof (cases "isl newDownTrack \<or> attach_fails sub")
    case True
    then obtain evs' err where "AddSubscriber sub newDownTrack t = (t, evs', Inl err)"
      using AddSubscriber_new[OF False, of newDownTrack] by blast
    with assms False True show ?thesis by auto
  next
    case ok: False
    then obtain evs' where "AddSubscriber sub newDownTrack t =
               (t\<lparr>subscribedTracks :=
                    AList.update (ID sub)
                      \<lparr>SubscriberID = ID sub, DownTrackOf = projr newDownTrack,
                       pubMuted = IsMuted (params t)\<rparr> (subscribedTracks t)\<rparr>,
                evs', Inr (Some (projr newDownTrack)))"
      using AddSubscriber_new[OF False, of newDownTrack] by blast
    with assms ok show ?thesis
      by (auto simp: getSubscribedTrack_def update_conv')
  qed
qed

theorem AddSubscriber_error_leaves_registry_witness:
  "AddSubscriber (participant ''D'') (Inl (ErrorString ''no codec'')) track_with_ABC =
     (track_with_ABC, [], Inl (ErrorString ''no codec'')) \<and>
   AddSubscriber ((participant ''D'')\<lparr>GetTransceivers := []\<rparr>) (Inr 4) track_with_ABC =
     (track_with_ABC, [PCAddTrack 4],
      Inl (ErrorString ''cannot subscribe without a transceiver in place'')) \<and>
   \<not> IsSubscriber ''D'' track_with_ABC \<and>
   getSubscribedTrack ''D'' (fst (AddSubscriber (participant ''D'') (Inr 4) track_with_ABC)) =
     Some \<lparr>SubscriberID = ''D'', DownTrackOf = 4, pubMuted = False\<rparr>"
proof -
  let ?noTr = "(participant ''D'')\<lparr>GetTransceivers := []\<rparr>"
  have a: "AddSubscriber (participant ''D'') (Inl (ErrorString ''no codec'')) track_with_ABC =
     (track_with_ABC, [], Inl (ErrorString ''no codec''))"
    by (simp add: AddSubscriber_def participant_def track_with_ABC_simps)
  have b: "AddSubscriber ?noTr (Inr 4) track_with_ABC =
     (track_with_ABC, [PCAddTrack 4],
      Inl (ErrorString ''cannot subscribe without a transceiver in place''))"
    by (simp add: AddSubscriber_def participant_def track_with_ABC_simps)
  have c: "AddSubscriber (participant ''D'') (Inr 4) track_with_ABC =
     (fst (AddSubscriber (participant ''D'') (Inr 4) track_with_ABC),
      fst (snd (AddSubscriber (participant ''D'') (Inr 4) track_with_ABC)),
      snd (snd (AddSubscriber (participant ''D'') (Inr 4) track_with_ABC)))"
    by simp
  have ch: "subscribedTracks (fst (AddSubscriber (participant ''D'') (Inr 4) track_with_ABC)) \<noteq>
            subscribedTracks track_with_ABC"
    by (simp add: AddSubscriber_def participant_def track_with_ABC_simps Let_def)
  have i: "ID (participant ''D'') = ''D''" "ID ?noTr = ''D''"
    "IsMuted (params track_with_ABC) = False"
    by (simp_all add: participant_def track_with_ABC_simps video_params_def)
  show ?thesis
    using AddSubscriber_error_leaves_registry [OF a] AddSubscriber_error_leaves_registry [OF b]
      AddSubscriber_error_leaves_registry [OF c] a b ch i
    by simp
qed

section \<open>The removal protocol\<close>





lemma track_with_AC_simps:
  "params track_with_AC = video_params"
  "maxSubscriberQuality track_with_AC =
     GoMap [(''A'', VideoQuality_LOW), (''B'', VideoQuality_HIGH), (''C'', VideoQuality_LOW)]"
  "maxSubscriberNodeQuality track_with_AC = NilMap"
  "maxSubscribedQuality track_with_AC = VideoQuality_HIGH"
  "onSubscribedMaxQualityChange track_with_AC = True"
  by (simp_all add: track_with_AC_def track_with_ABC_simps)






section \<open>The invariant holds in every run\<close>

lemma engine_inv_new: "engine_inv (NewMediaTrackSubscriptions p)"
  by (simp add: engine_inv_def NewMediaTrackSubscriptions_def wf_gomap_def valid_qualities_def
      no_OFF_stored_def map_values_def)

lemma engine_inv_register: "engine_inv t \<Longrightarrow> engine_inv (OnSubscribedMaxQualityChange t)"
  by (simp add: engine_inv_def OnSubscribedMaxQualityChange_def valid_qualities_def
      no_OFF_stored_def)

lemma engine_inv_cong:
  "maxSubscriberQuality t' = maxSubscriberQuality t \<Longrightarrow>
   maxSubscriberNodeQuality t' = maxSubscriberNodeQuality t \<Longrightarrow>
   engine_inv t' = engine_inv t"
  by (simp add: engine_inv_def valid_qualities_def no_OFF_stored_def)

lemma engine_inv_updateQualityChange:
  "engine_inv t \<Longrightarrow> engine_inv (fst (updateQualityChange t))"
  by (simp add: engine_inv_cong[of "fst (updateQualityChange t)" t] updateQualityChange_fields)

lemma gomap_delete_inv:
  assumes "wf_gomap m" "list_all is_VideoQuality (map_values m)" "VideoQuality_OFF \<notin> set (map_values m)"
  shows "wf_gomap (delete_key k m) \<and> list_all is_VideoQuality (map_values (delete_key k m)) \<and>
         VideoQuality_OFF \<notin> set (map_values (delete_key k m)) \<and>
         (m \<noteq> NilMap \<longrightarrow> delete_key k m \<noteq> NilMap)"
  using assms values_delete_key[of k m] wf_delete_key[of m k]
  by (cases m) (auto simp: list_all_iff)

lemma gomap_assign_inv:
  assumes "wf_gomap m" "list_all is_VideoQuality (map_values m)" "VideoQuality_OFF \<notin> set (map_values m)"
    and "is_VideoQuality q" "q \<noteq> VideoQuality_OFF" "assign k q m = Inr m'"
  shows "wf_gomap m' \<and> list_all is_VideoQuality (map_values m') \<and>
         VideoQuality_OFF \<notin> set (map_values m') \<and> m' \<noteq> NilMap"
proof (cases m)
  case NilMap
  with assms(6) show ?thesis by simp
next
  case (GoMap kvs)
  then have m': "m' = GoMap (AList.update k q kvs)" using assms(6) by auto
  have "set (map_values m') \<subseteq> insert q (set (map_values m))"
    using values_update[of k q kvs] by (simp add: m' GoMap map_values_def)
  then show ?thesis
    using assms(1-5) wf_update[of kvs k q] unfolding m' GoMap
    by (auto simp: list_all_iff)
qed

lemma engine_inv_NotifySubscriberMaxQuality:
  assumes "engine_inv t" "is_VideoQuality q" "NotifySubscriberMaxQuality x q t = Inr (t', evs)"
  shows "engine_inv t'"
proof (cases "Kind (params t) = TrackType_VIDEO")
  case False
  then show ?thesis using assms by (simp add: NotifySubscriberMaxQuality_def)
next
  case True
  obtain kvs where kvs: "maxSubscriberQuality t = GoMap kvs"
    using assms(1) by (cases "maxSubscriberQuality t") (auto simp: engine_inv_def)
  note u = NotifySubscriberMaxQuality_unfold[OF True kvs, of x q]
  have d: "engine_inv (t\<lparr>maxSubscriberQuality := GoMap (AList.delete x kvs)\<rparr>)"
    using assms(1) gomap_delete_inv[of "GoMap kvs" x] kvs
    by (simp add: engine_inv_def valid_qualities_def no_OFF_stored_def)
  have a: "q \<noteq> VideoQuality_OFF \<Longrightarrow>
           engine_inv (t\<lparr>maxSubscriberQuality := GoMap (AList.update x q kvs)\<rparr>)"
    using assms(1,2) gomap_assign_inv[of "GoMap kvs" q x "GoMap (AList.update x q kvs)"] kvs
    by (simp add: engine_inv_def valid_qualities_def no_OFF_stored_def)
  from assms(3) have "(t', evs) =
       (if q = VideoQuality_OFF
         then (if lookup (GoMap kvs) x = None then (t, [])
               else updateQualityChange (t\<lparr>maxSubscriberQuality := GoMap (AList.delete x kvs)\<rparr>))
         else (if lookup (GoMap kvs) x = Some q then (t, [])
               else updateQualityChange (t\<lparr>maxSubscriberQuality := GoMap (AList.update x q kvs)\<rparr>)))"
    unfolding u by simp
  then have "t' = t \<or>
     t' = fst (updateQualityChange (t\<lparr>maxSubscriberQuality := GoMap (AList.delete x kvs)\<rparr>)) \<or>
     (q \<noteq> VideoQuality_OFF \<and>
      t' = fst (updateQualityChange (t\<lparr>maxSubscriberQuality := GoMap (AList.update x q kvs)\<rparr>)))"
    by (auto split: if_splits dest: arg_cong[where f = fst])
  then show ?thesis
    using assms(1) d a engine_inv_updateQualityChange by auto
qed

lemma NotifySubscriberNodeMaxQuality_unfold:
  assumes "Kind (params t) = TrackType_VIDEO"
  shows "NotifySubscriberNodeMaxQuality n q t =
    (if q = VideoQuality_OFF
     then Inr (if lookup (maxSubscriberNodeQuality t) n = None then (t, [])
               else updateQualityChange
                      (t\<lparr>maxSubscriberNodeQuality := delete_key n (maxSubscriberNodeQuality t)\<rparr>))
     else if lookup (maxSubscriberNodeQuality t) n = Some q then Inr (t, [])
     else (case assign n q (maxSubscriberNodeQuality t) of
             Inl p \<Rightarrow> Inl p
           | Inr m \<Rightarrow> Inr (updateQualityChange (t\<lparr>maxSubscriberNodeQuality := m\<rparr>))))"
  using assms by (auto simp: NotifySubscriberNodeMaxQuality_def split: option.splits sum.splits)

lemma engine_inv_NotifySubscriberNodeMaxQuality:
  assumes "engine_inv t" "is_VideoQuality q" "NotifySubscriberNodeMaxQuality n q t = Inr (t', evs)"
  shows "engine_inv t'"
proof (cases "Kind (params t) = TrackType_VIDEO")
  case False
  then show ?thesis using assms by (simp add: NotifySubscriberNodeMaxQuality_def)
next
  case True
  note u = NotifySubscriberNodeMaxQuality_unfold[OF True, of n q]
  let ?m = "maxSubscriberNodeQuality t"
  have d: "engine_inv (t\<lparr>maxSubscriberNodeQuality := delete_key n ?m\<rparr>)"
    using assms(1) gomap_delete_inv[of ?m n]
    by (simp add: engine_inv_def valid_qualities_def no_OFF_stored_def)
  have a: "q \<noteq> VideoQuality_OFF \<Longrightarrow> assign n q ?m = Inr m' \<Longrightarrow>
           engine_inv (t\<lparr>maxSubscriberNodeQuality := m'\<rparr>)" for m'
    using assms(1,2) gomap_assign_inv[of ?m q n m']
    by (simp add: engine_inv_def valid_qualities_def no_OFF_stored_def)
  from assms(3) have "t' = t \<or>
     t' = fst (updateQualityChange (t\<lparr>maxSubscriberNodeQuality := delete_key n ?m\<rparr>)) \<or>
     (q \<noteq> VideoQuality_OFF \<and>
      (\<exists>m'. assign n q ?m = Inr m' \<and> t' = fst (updateQualityChange (t\<lparr>maxSubscriberNodeQuality := m'\<rparr>))))"
    unfolding u
    by (auto split: if_splits sum.splits dest: arg_cong[where f = fst])
  then show ?thesis
    using assms(1) d a engine_inv_updateQualityChange by auto
qed

lemma engine_inv_apply_op:
  assumes "engine_inv t" "op_valid op" "apply_op op t = Inr (t', evs)"
  shows "engine_inv t'"
proof (cases op)
  case (NotifySubscriber x q)
  then show ?thesis
    using assms engine_inv_NotifySubscriberMaxQuality by auto
next
  case (NotifyNode n q)
  then show ?thesis
    using assms engine_inv_NotifySubscriberNodeMaxQuality by auto
next
  case Recompute
  then show ?thesis
    using assms engine_inv_updateQualityChange[of t] by auto
next
  case StartInitialTimer
  then show ?thesis
    using assms engine_inv_cong[of "startMaxQualityTimer t" t]
    by (auto simp: startMaxQualityTimer_def)
qed

lemma engine_inv_run_ops:
  "engine_inv t \<Longrightarrow> list_all op_valid ops \<Longrightarrow> run_ops ops t = Inr (t', evs) \<Longrightarrow> engine_inv t'"
proof (induction ops arbitrary: t evs)
  case Nil
  then show ?case by simp
next
  case (Cons op ops)
  from Cons.prems(3) obtain t1 evs1 evs2 where
    a: "apply_op op t = Inr (t1, evs1)" and r: "run_ops ops t1 = Inr (t', evs2)"
    by (auto split: sum.splits)
  have "engine_inv t1"
    using engine_inv_apply_op[OF Cons.prems(1) _ a] Cons.prems(2) by simp
  then show ?case
    using Cons.IH[OF _ _ r] Cons.prems(2) by simp
qed

text \<open>The order in which \<open>range\<close> visits the entries does not change the result.\<close>

lemma max_loop_order:
  fixes xs xs' :: "('k \<times> VideoQuality) list"
  assumes "list_all is_VideoQuality (map snd xs)" "VideoQuality_OFF \<notin> set (map snd xs)"
    and "set (map snd xs') = set (map snd xs)"
  shows "max_loop VideoQuality_OFF xs' = max_loop VideoQuality_OFF xs"
proof -
  define none :: "('k \<times> VideoQuality) list" where "none = []"
  have e: "list_all is_VideoQuality (map snd none)" "VideoQuality_OFF \<notin> set (map snd none)"
    by (simp_all add: none_def)
  have v': "list_all is_VideoQuality (map snd xs')" "VideoQuality_OFF \<notin> set (map snd xs')"
    using assms by (simp_all add: list_all_iff)
  have r: "set (map quality_rank (VideoQuality_OFF # map snd xs' @ map snd none)) =
           set (map quality_rank (VideoQuality_OFF # map snd xs @ map snd none))"
  proof -
    have "quality_rank ` (snd ` set xs') = quality_rank ` (snd ` set xs)"
      using assms(3) by simp
    then show ?thesis by (simp add: image_image none_def)
  qed
  have "max_loop (max_loop VideoQuality_OFF xs') none = max_loop (max_loop VideoQuality_OFF xs) none"
    by (simp only: both_loops[OF v'(1) e(1) v'(2) e(2)] both_loops[OF assms(1) e(1) assms(2) e(2)] r)
  then show ?thesis by (simp add: none_def)
qed

end
